theory Spec2Isabelle
  imports Complex_Main "HOL-Library.Char_ord"
begin

section \<open>Values, errors and results\<close>

text \<open>
  The library handles untyped JSON payloads: the device info blob, the arguments of the
  bulb operations and the effect definitions are all dynamically typed. The values that
  occur are modelled by \<open>val\<close>: \<open>None\<close>, integers, strings and lists (floats and
  booleans are not represented, so equality of values is Python's \<open>==\<close>). Python's
  \<open>isinstance(x, int)\<close> is \<open>is_int\<close>.

  An exception is a value of \<open>error\<close>, and a function that may raise returns
  \<open>error + 'a\<close>. \<open>KasaException\<close> and \<open>ValueError\<close> carry the constant part of
  the message (interpolated argument values are left out), \<open>KeyError\<close> carries the
  missing key.
\<close>

datatype val = VNone | VInt int | VStr string | VList "val list"

datatype error =
    KasaException string
  | ValueError string
  | KeyError string
  | IndexError
  | TypeError
  | OverflowError
  | TransportError string

fun is_int :: "val \<Rightarrow> bool" where
  "is_int (VInt n) = True"
| "is_int v = False"

text \<open>
  Python's \<open>x[i]\<close> for a constant index \<open>i \<ge> 0\<close>: lists and strings are indexed
  (a string yields a one-character string) and raise \<open>IndexError\<close> out of range;
  \<open>None\<close> and integers are not subscriptable.
\<close>

fun getitem :: "val \<Rightarrow> nat \<Rightarrow> error + val" where
  "getitem (VList xs) i = (if i < length xs then Inr (xs ! i) else Inl IndexError)"
| "getitem (VStr s) i = (if i < length s then Inr (VStr [s ! i]) else Inl IndexError)"
| "getitem VNone i = Inl TypeError"
| "getitem (VInt n) i = Inl TypeError"


section \<open>Module: the feature registry (kasa/module.py)\<close>

text \<open>
  A feature is known to the registry by its \<open>name\<close> only; whatever else a feature
  carries is the record's extension. A module holds its key and the dictionary
  \<open>_module_features\<close> from slugified names to features.
\<close>

record feature =
  name :: string

record 'a module =
  module_key :: string
  module_features :: "string \<rightharpoonup> 'a feature_scheme"

text \<open>
  A Python \<open>str\<close> is a sequence of Unicode code points; it is represented by its UTF-8
  encoding, a \<open>string\<close> of bytes, in which the bytes below 128 are exactly the ASCII
  characters of the text.

  \<open>str.lower()\<close>: on a text of ASCII characters only, the letters A to Z are replaced
  by a to z and nothing else changes. On any other text the result is given by the case
  mapping of the Unicode standard, which is part of the Python runtime and not of this
  repository (it may change the length of the text); it is the argument
  \<open>unicode_lower\<close>, and everything below holds whatever that mapping is.
\<close>

definition is_ascii :: "char \<Rightarrow> bool" where
  "is_ascii c \<longleftrightarrow> (of_char c :: nat) < 128"

definition lower_char :: "char \<Rightarrow> char" where
  "lower_char c = (if CHR ''A'' \<le> c \<and> c \<le> CHR ''Z''
                   then char_of (of_char c + (32::nat)) else c)"

definition lower :: "(string \<Rightarrow> string) \<Rightarrow> string \<Rightarrow> string" where
  "lower unicode_lower s = (if list_all is_ascii s then map lower_char s else unicode_lower s)"

text \<open>
  \<open>str.replace(old, new)\<close> for one-character ASCII \<open>old\<close> and \<open>new\<close>: an ASCII
  byte of the encoding is always a character of its own, so replacing the character is
  replacing the byte.
\<close>

definition replace :: "string \<Rightarrow> char \<Rightarrow> char \<Rightarrow> string" where
  "replace s old new = map (\<lambda>c. if c = old then new else c) s"

text \<open>\<^verbatim>\<open>name.lower().replace(" ", "_").replace("'", "_")\<close>\<close>

definition slugified_name :: "(string \<Rightarrow> string) \<Rightarrow> string \<Rightarrow> string" where
  "slugified_name unicode_lower nm =
     replace (replace (lower unicode_lower nm) CHR '' '' CHR ''_'') CHR 0x27 CHR ''_''"

text \<open>
  \<open>_add_feature\<close> mutates the module in place or raises; the model returns the outcome
  together with the module as it is afterwards.
\<close>

definition add_feature ::
  "(string \<Rightarrow> string) \<Rightarrow> 'a module \<Rightarrow> 'a feature_scheme \<Rightarrow> (error + unit) \<times> 'a module" where
  "add_feature unicode_lower self feat =
     (let feat_name = slugified_name unicode_lower (name feat) in
      if feat_name \<in> dom (module_features self)
      then (Inl (KasaException (''Duplicate name detected '' @ feat_name)), self)
      else (Inr (), self\<lparr>module_features := (module_features self)(feat_name \<mapsto> feat)\<rparr>))"


section \<open>SmartBulb: capability-gated operations (kasa/smart/smartbulb.py)\<close>

text \<open>
  The bulb reads its capabilities from the info blob \<open>_info\<close> and from the keys of
  its module registry \<open>modules\<close>. Its only effect on the outside is
  \<open>protocol.query(request)\<close>: \<open>protocol\<close> is the external collaborator, which
  answers or fails, and \<open>sent\<close> records every request handed to it, in order.
  An operation returns its outcome and the bulb as it is afterwards. The keyword
  argument \<open>transition\<close> of the setters is ignored by the source and left out.
\<close>

type_synonym request = "string \<rightharpoonup> (string \<rightharpoonup> val)"
type_synonym response = "string \<rightharpoonup> val"

record smartbulb =
  info :: "string \<rightharpoonup> val"
  modules :: "string set"
  protocol :: "request \<Rightarrow> error + response"
  sent :: "request list"

text \<open>\<open>d.get(k, dflt)\<close>; \<open>d.get(k)\<close> is \<open>dict_get d k VNone\<close>.\<close>

definition dict_get :: "(string \<rightharpoonup> val) \<Rightarrow> string \<Rightarrow> val \<Rightarrow> val" where
  "dict_get d k dflt = (case d k of None \<Rightarrow> dflt | Some v \<Rightarrow> v)"

definition protocol_query ::
  "smartbulb \<Rightarrow> request \<Rightarrow> (error + response) \<times> smartbulb" where
  "protocol_query self req = (protocol self req, self\<lparr>sent := sent self @ [req]\<rparr>)"

definition is_color :: "smartbulb \<Rightarrow> bool" where
  "is_color self \<longleftrightarrow> ''hue'' \<in> dom (info self)"

definition is_dimmable :: "smartbulb \<Rightarrow> bool" where
  "is_dimmable self \<longleftrightarrow> ''Brightness'' \<in> modules self"

text \<open>
  \<^verbatim>\<open>ct = self._info.get("color_temp_range"); return ct is not None and ct[0] != ct[1]\<close>
\<close>

definition is_variable_color_temp :: "smartbulb \<Rightarrow> error + bool" where
  "is_variable_color_temp self =
     (let ct = dict_get (info self) ''color_temp_range'' VNone in
      if ct = VNone then Inr False
      else case getitem ct 0 of
             Inl e \<Rightarrow> Inl e
           | Inr lo \<Rightarrow> (case getitem ct 1 of
                          Inl e \<Rightarrow> Inl e
                        | Inr hi \<Rightarrow> Inr (lo \<noteq> hi)))"

text \<open>The result \<open>ColorTempRange(min, max)\<close> is the pair \<open>(min, max)\<close>.\<close>

definition valid_temperature_range :: "smartbulb \<Rightarrow> error + (val \<times> val)" where
  "valid_temperature_range self =
     (case is_variable_color_temp self of
        Inl e \<Rightarrow> Inl e
      | Inr variable \<Rightarrow>
          if \<not> variable then Inl (KasaException ''Color temperature not supported'')
          else
            let ct_range = dict_get (info self) ''color_temp_range'' (VList [VInt 0, VInt 0])
            in case getitem ct_range 0 of
                 Inl e \<Rightarrow> Inl e
               | Inr lo \<Rightarrow> (case getitem ct_range 1 of
                              Inl e \<Rightarrow> Inl e
                            | Inr hi \<Rightarrow> Inr (lo, hi)))"

text \<open>\<open>lo <= v <= hi\<close>, evaluated only after \<open>isinstance(v, int)\<close> has succeeded.\<close>

fun between :: "int \<Rightarrow> val \<Rightarrow> int \<Rightarrow> bool" where
  "between lo (VInt n) hi = (lo \<le> n \<and> n \<le> hi)"
| "between lo v hi = False"

definition raise_for_invalid_brightness :: "val \<Rightarrow> error + unit" where
  "raise_for_invalid_brightness v =
     (if \<not> is_int v \<or> \<not> between 1 v 100
      then Inl (ValueError ''Invalid brightness value (valid range: 1-100%)'')
      else Inr ())"

definition set_hsv ::
  "smartbulb \<Rightarrow> val \<Rightarrow> val \<Rightarrow> val \<Rightarrow> (error + response) \<times> smartbulb" where
  "set_hsv self hue saturation v =
     (if \<not> is_color self then (Inl (KasaException ''Bulb does not support color.''), self)
      else if \<not> is_int hue \<or> \<not> between 0 hue 360
      then (Inl (ValueError ''Invalid hue value (valid range: 0-360)''), self)
      else if \<not> is_int saturation \<or> \<not> between 0 saturation 100
      then (Inl (ValueError ''Invalid saturation value (valid range: 0-100%)''), self)
      else
        case (if v \<noteq> VNone then raise_for_invalid_brightness v else Inr ()) of
          Inl e \<Rightarrow> (Inl e, self)
        | Inr u \<Rightarrow>
            let request_payload =
                  [''color_temp'' \<mapsto> VInt 0, ''hue'' \<mapsto> hue, ''saturation'' \<mapsto> saturation];
                request_payload =
                  (if v \<noteq> VNone then request_payload(''brightness'' \<mapsto> v)
                   else request_payload)
            in protocol_query self [''set_device_info'' \<mapsto> request_payload])"

definition set_brightness ::
  "smartbulb \<Rightarrow> val \<Rightarrow> (error + response) \<times> smartbulb" where
  "set_brightness self brightness =
     (if \<not> is_dimmable self then (Inl (KasaException ''Bulb is not dimmable.''), self)
      else
        case raise_for_invalid_brightness brightness of
          Inl e \<Rightarrow> (Inl e, self)
        | Inr u \<Rightarrow>
            protocol_query self [''set_device_info'' \<mapsto> [''brightness'' \<mapsto> brightness]])"


section \<open>Emeter: statistics conversion (kasa/iot/modules/emeter.py)\<close>

text \<open>
  The numbers of a statistics series are Python ints and floats. An int is an unbounded
  integer. The floats are a type \<open>'f\<close> that is not fixed here, and the float
  arithmetic of the Python runtime is the argument \<open>ops\<close> of every function below:
  \<^item> \<open>float_mul\<close>, the rounded product of two floats;
  \<^item> \<open>float_of_int\<close>, the conversion of an int to a float, which fails for an int
    too large for a float (Python raises \<open>OverflowError\<close>);
  \<^item> \<open>float_eq\<close> and \<open>float_eq_int\<close>, the comparison \<open>==\<close> of a float with a
    float and with an int;
  \<^item> \<open>true_div\<close>, the float quotient \<open>a / b\<close> of two ints.
  Nothing is assumed about these operations, so what is proved holds for the floats of
  any Python runtime.
\<close>

datatype 'f num = PInt int | PFloat 'f

record 'f float_ops =
  float_mul :: "'f \<Rightarrow> 'f \<Rightarrow> 'f"
  float_of_int :: "int \<Rightarrow> 'f option"
  float_eq :: "'f \<Rightarrow> 'f \<Rightarrow> bool"
  float_eq_int :: "'f \<Rightarrow> int \<Rightarrow> bool"
  true_div :: "int \<Rightarrow> int \<Rightarrow> 'f"

text \<open>
  \<open>a * b\<close>: the product of two ints is exact; with a float on one side the int on
  the other side is converted to a float first.
\<close>

fun py_mul :: "'f float_ops \<Rightarrow> 'f num \<Rightarrow> 'f num \<Rightarrow> error + 'f num" where
  "py_mul ops (PInt a) (PInt b) = Inr (PInt (a * b))"
| "py_mul ops (PInt a) (PFloat y) =
     (case float_of_int ops a of
        None \<Rightarrow> Inl OverflowError
      | Some x \<Rightarrow> Inr (PFloat (float_mul ops x y)))"
| "py_mul ops (PFloat x) (PInt b) =
     (case float_of_int ops b of
        None \<Rightarrow> Inl OverflowError
      | Some y \<Rightarrow> Inr (PFloat (float_mul ops x y)))"
| "py_mul ops (PFloat x) (PFloat y) = Inr (PFloat (float_mul ops x y))"

text \<open>\<open>a == b\<close> on numbers.\<close>

fun py_eq :: "'f float_ops \<Rightarrow> 'f num \<Rightarrow> 'f num \<Rightarrow> bool" where
  "py_eq ops (PInt a) (PInt b) = (a = b)"
| "py_eq ops (PInt a) (PFloat y) = float_eq_int ops y a"
| "py_eq ops (PFloat x) (PInt b) = float_eq_int ops x b"
| "py_eq ops (PFloat x) (PFloat y) = float_eq ops x y"

text \<open>
  A dictionary with numbers as keys is the list of its items in insertion order. Storing
  under a key that \<open>==\<close> a key already present replaces the value of that item and
  keeps its key; otherwise a new item is appended. \<open>d.get(k)\<close> is the value of the
  item whose key \<open>==\<close> \<open>k\<close>.
\<close>

type_synonym 'f num_dict = "('f num \<times> 'f num) list"

fun num_dict_set ::
  "'f float_ops \<Rightarrow> 'f num_dict \<Rightarrow> 'f num \<Rightarrow> 'f num \<Rightarrow> 'f num_dict" where
  "num_dict_set ops [] k v = [(k, v)]"
| "num_dict_set ops ((k', v') # d) k v =
     (if py_eq ops k' k then (k', v) # d else (k', v') # num_dict_set ops d k v)"

fun num_dict_get :: "'f float_ops \<Rightarrow> 'f num_dict \<Rightarrow> 'f num \<Rightarrow> 'f num option" where
  "num_dict_get ops [] k = None"
| "num_dict_get ops ((k', v') # d) k =
     (if py_eq ops k' k then Some v' else num_dict_get ops d k)"

text \<open>
  A record of a statistics series is a dictionary from field names to numbers. A missing
  field raises \<open>KeyError\<close>.
\<close>

type_synonym 'f entry = "string \<rightharpoonup> 'f num"

text \<open>
  \<^verbatim>\<open>{entry[entry_key]: entry[value_key] * scale for entry in data}\<close>, built from
  left to right; the key is evaluated before the value.
\<close>

fun all_entries ::
  "'f float_ops \<Rightarrow> string \<Rightarrow> string \<Rightarrow> 'f num \<Rightarrow> 'f entry list \<Rightarrow> 'f num_dict
     \<Rightarrow> error + 'f num_dict" where
  "all_entries ops entry_key value_key scale [] acc = Inr acc"
| "all_entries ops entry_key value_key scale (e # es) acc =
     (case e entry_key of
        None \<Rightarrow> Inl (KeyError entry_key)
      | Some k \<Rightarrow>
          (case e value_key of
             None \<Rightarrow> Inl (KeyError value_key)
           | Some v \<Rightarrow>
               (case py_mul ops v scale of
                  Inl err \<Rightarrow> Inl err
                | Inr r \<Rightarrow>
                    all_entries ops entry_key value_key scale es
                      (num_dict_set ops acc k r))))"

text \<open>
  The loop \<^verbatim>\<open>for entry in reversed(data): if entry[entry_key] == key: return {...}\<close>
  followed by \<^verbatim>\<open>return {}\<close>; the argument is the series already reversed.
\<close>

fun first_entry ::
  "'f float_ops \<Rightarrow> string \<Rightarrow> string \<Rightarrow> 'f num \<Rightarrow> 'f num \<Rightarrow> 'f entry list
     \<Rightarrow> error + 'f num_dict" where
  "first_entry ops entry_key value_key scale key [] = Inr []"
| "first_entry ops entry_key value_key scale key (e # es) =
     (case e entry_key of
        None \<Rightarrow> Inl (KeyError entry_key)
      | Some k \<Rightarrow>
          if py_eq ops k key
          then (case e value_key of
                  None \<Rightarrow> Inl (KeyError value_key)
                | Some v \<Rightarrow>
                    (case py_mul ops v scale of
                       Inl err \<Rightarrow> Inl err
                     | Inr r \<Rightarrow> Inr [(k, r)]))
          else first_entry ops entry_key value_key scale key es)"

text \<open>
  The unit inferred from the first record: the value field and the scale. The scale is
  the int \<open>1\<close>, the float \<open>1 / 1000\<close> or the int \<open>1000\<close>.
\<close>

definition value_key_of :: "'f entry list \<Rightarrow> string" where
  "value_key_of data = (if ''energy_wh'' \<in> dom (hd data) then ''energy_wh'' else ''energy'')"

definition scale_of :: "'f float_ops \<Rightarrow> 'f entry list \<Rightarrow> bool \<Rightarrow> 'f num" where
  "scale_of ops data kwh =
     (if ''energy_wh'' \<in> dom (hd data)
      then (if kwh then PFloat (true_div ops 1 1000) else PInt 1)
      else (if \<not> kwh then PInt 1000 else PInt 1))"

definition convert_stat_data ::
  "'f float_ops \<Rightarrow> 'f entry list \<Rightarrow> string \<Rightarrow> bool \<Rightarrow> int option \<Rightarrow> error + 'f num_dict" where
  "convert_stat_data ops data entry_key kwh key =
     (if data = [] then Inr []
      else
        let value_key = value_key_of data; scale = scale_of ops data kwh in
        case key of
          None \<Rightarrow> all_entries ops entry_key value_key scale data []
        | Some k \<Rightarrow> first_entry ops entry_key value_key scale (PInt k) (rev data))"

text \<open>
  \<open>emeter_today\<close> and \<open>emeter_this_month\<close>: the raw series (\<open>daily_data\<close>,
  \<open>monthly_data\<close>) and the current day or month (\<open>datetime.now()\<close>) are arguments.
  \<open>kwh\<close> has its default \<open>True\<close>; the result is \<open>data.get(today)\<close>.
\<close>

definition emeter_today ::
  "'f float_ops \<Rightarrow> 'f entry list \<Rightarrow> int \<Rightarrow> error + 'f num option" where
  "emeter_today ops raw_data today =
     (case convert_stat_data ops raw_data ''day'' True (Some today) of
        Inl e \<Rightarrow> Inl e
      | Inr data \<Rightarrow> Inr (num_dict_get ops data (PInt today)))"

definition emeter_this_month ::
  "'f float_ops \<Rightarrow> 'f entry list \<Rightarrow> int \<Rightarrow> error + 'f num option" where
  "emeter_this_month ops raw_data current_month =
     (case convert_stat_data ops raw_data ''month'' True (Some current_month) of
        Inl e \<Rightarrow> Inl e
      | Inr data \<Rightarrow> Inr (num_dict_get ops data (PInt current_month)))"

text \<open>
  An instance of the float operations for worked examples: arithmetic on rationals
  without rounding. On the products of those examples, such as \<open>5.0 * 1000\<close> and
  \<open>2500 * (1 / 1000)\<close>, it gives the numbers that double-precision arithmetic gives.
\<close>

definition exact_ops :: "rat float_ops" where
  "exact_ops =
     \<lparr>float_mul = (*), float_of_int = (\<lambda>n. Some (of_int n)), float_eq = (=),
      float_eq_int = (\<lambda>x n. x = of_int n), true_div = (\<lambda>a b. of_int a / of_int b)\<rparr>"


section \<open>IotLightStrip: built-in effects (kasa/iot/iotlightstrip.py)\<close>

text \<open>
  \<open>EFFECT_MAPPING_V1\<close> is a module-level dictionary from effect names to effect
  definitions, shared by every call. Its values are dictionary objects, and
  \<open>set_effect\<close> works on the object it finds there, so objects live in an explicit
  store: \<open>objects\<close> maps a reference to the dictionary stored under it, and the
  catalog maps a name to a reference.
\<close>

type_synonym ref = nat
type_synonym effect_dict = "string \<rightharpoonup> val"

record iotlightstrip =
  EFFECT_MAPPING_V1 :: "string \<rightharpoonup> ref"
  objects :: "ref \<Rightarrow> effect_dict"
  last_update :: bool
  has_effects :: bool
  transport :: "string \<times> string \<times> effect_dict \<Rightarrow> error + unit"
  helper_queries :: "(string \<times> string \<times> effect_dict) list"

text \<open>The definition that the catalog holds for a name at the moment.\<close>

definition catalog_entry :: "iotlightstrip \<Rightarrow> string \<Rightarrow> effect_dict option" where
  "catalog_entry self effect = map_option (objects self) (EFFECT_MAPPING_V1 self effect)"

text \<open>\<^verbatim>\<open>d[k] = v\<close> on the dictionary object behind the reference \<open>d\<close>.\<close>

definition setitem :: "iotlightstrip \<Rightarrow> ref \<Rightarrow> string \<Rightarrow> val \<Rightarrow> iotlightstrip" where
  "setitem self d k v = self\<lparr>objects := (objects self)(d := (objects self d)(k \<mapsto> v))\<rparr>"

text \<open>
  Modelled from the spec: the decorator \<open>requires_update\<close> of kasa/iot/iotdevice.py
  is not among the sources at hand. Reading device state before a successful update
  raises the "not yet updated" error: \<open>last_update\<close> says whether an update has
  completed, and this is the error raised when none has.
\<close>

definition not_updated :: error where
  "not_updated = KasaException ''You need to await update() to access the data''"

text \<open>
  Modelled from the spec: \<open>_query_helper\<close> of kasa/iot/iotdevice.py and the property
  \<open>has_effects\<close> of kasa/iot/iotbulb.py are not among the sources at hand.
  \<open>has_effects\<close> is the capability flag derived from the last update;
  \<open>_query_helper\<close> issues one request with the contents of the dictionary as they are
  at the time of the call, recorded in \<open>helper_queries\<close>, and succeeds or fails as the
  external \<open>transport\<close> does.
\<close>

definition query_helper ::
  "iotlightstrip \<Rightarrow> string \<Rightarrow> string \<Rightarrow> ref \<Rightarrow> (error + unit) \<times> iotlightstrip" where
  "query_helper self target cmd arg =
     (transport self (target, cmd, objects self arg),
      self\<lparr>helper_queries := helper_queries self @ [(target, cmd, objects self arg)]\<rparr>)"

definition set_custom_effect ::
  "iotlightstrip \<Rightarrow> ref \<Rightarrow> (error + unit) \<times> iotlightstrip" where
  "set_custom_effect self effect_dict =
     (if \<not> last_update self then (Inl not_updated, self)
      else if \<not> has_effects self
      then (Inl (KasaException ''Bulb does not support effects.''), self)
      else query_helper self ''smartlife.iot.lighting_effect'' ''set_lighting_effect''
             effect_dict)"

definition set_effect ::
  "iotlightstrip \<Rightarrow> string \<Rightarrow> val \<Rightarrow> val \<Rightarrow> (error + unit) \<times> iotlightstrip" where
  "set_effect self effect brightness transition =
     (if \<not> last_update self then (Inl not_updated, self)
      else
        case EFFECT_MAPPING_V1 self effect of
          None \<Rightarrow>
            (Inl (KasaException (''The effect '' @ effect @ '' is not a built in effect.'')),
             self)
        | Some effect_dict \<Rightarrow>
            let self = (if brightness \<noteq> VNone
                        then setitem self effect_dict ''brightness'' brightness else self);
                self = (if transition \<noteq> VNone
                        then setitem self effect_dict ''transition'' transition else self)
            in set_custom_effect self effect_dict)"


section \<open>Properties of the feature registry\<close>

lemma of_char_lower_char:
  "(of_char (lower_char c) :: nat) =
     (if 65 \<le> (of_char c :: nat) \<and> (of_char c :: nat) \<le> 90
      then of_char c + 32 else of_char c)"
  by (simp add: lower_char_def less_eq_char_def)

lemma lower_char_space: "lower_char c = CHR '' '' \<longleftrightarrow> c = CHR '' ''"
proof -
  have "lower_char c = CHR '' ''
          \<longleftrightarrow> (of_char (lower_char c) :: nat) = of_char CHR '' ''"
    by (simp only: of_char_eq_iff)
  also have "\<dots> \<longleftrightarrow> (of_char c :: nat) = of_char CHR '' ''"
    by (simp add: of_char_lower_char)
  also have "\<dots> \<longleftrightarrow> c = CHR '' ''"
    by (simp only: of_char_eq_iff)
  finally show ?thesis .
qed

lemma lower_char_apostrophe: "lower_char c = CHR 0x27 \<longleftrightarrow> c = CHR 0x27"
proof -
  have "lower_char c = CHR 0x27
          \<longleftrightarrow> (of_char (lower_char c) :: nat) = of_char CHR 0x27"
    by (simp only: of_char_eq_iff)
  also have "\<dots> \<longleftrightarrow> (of_char c :: nat) = of_char CHR 0x27"
    by (simp add: of_char_lower_char)
  also have "\<dots> \<longleftrightarrow> c = CHR 0x27"
    by (simp only: of_char_eq_iff)
  finally show ?thesis .
qed

lemma slugified_name_lowered:
  "slugified_name unicode_lower nm =
     map (\<lambda>c. if c = CHR '' '' \<or> c = CHR 0x27 then CHR ''_'' else c)
         (lower unicode_lower nm)"
  by (simp add: slugified_name_def replace_def)

lemma slugified_name_ascii:
  assumes "list_all is_ascii nm"
  shows "slugified_name unicode_lower nm =
           map (\<lambda>c. if c = CHR '' '' \<or> c = CHR 0x27 then CHR ''_'' else lower_char c) nm"
proof -
  have "map (\<lambda>c. if c = CHR '' '' \<or> c = CHR 0x27 then CHR ''_'' else c) (map lower_char xs)
          = map (\<lambda>c. if c = CHR '' '' \<or> c = CHR 0x27 then CHR ''_'' else lower_char c) xs"
    for xs
    by (induction xs) (simp_all add: lower_char_space lower_char_apostrophe)
  with assms show ?thesis
    by (simp add: slugified_name_lowered lower_def)
qed

lemma ascii_total_energy: "list_all is_ascii ''Total Energy''"
  by code_simp

lemma ascii_todays_consumption: "list_all is_ascii ''Today's consumption''"
  by code_simp

lemma slugified_total_energy:
  "slugified_name unicode_lower ''Total Energy'' = ''total_energy''"
proof -
  have "map (\<lambda>c. if c = CHR '' '' \<or> c = CHR 0x27 then CHR ''_'' else lower_char c)
          ''Total Energy'' = ''total_energy''"
    by code_simp
  then show ?thesis
    by (simp only: slugified_name_ascii [OF ascii_total_energy])
qed

lemma slugified_todays_consumption:
  "slugified_name unicode_lower ''Today's consumption'' = ''today_s_consumption''"
proof -
  have "map (\<lambda>c. if c = CHR '' '' \<or> c = CHR 0x27 then CHR ''_'' else lower_char c)
          ''Today's consumption'' = ''today_s_consumption''"
    by code_simp
  then show ?thesis
    by (simp only: slugified_name_ascii [OF ascii_todays_consumption])
qed

text \<open>
  C7 (as amended). The slug of a name is the name lowercased, with every space and every
  apostrophe of the lowercased name replaced by an underscore: apostrophes are not
  removed, and the slug is as long as the lowercased name. For a name of ASCII characters
  this is, character by character, an underscore for a space or an apostrophe and the
  lowercase character otherwise. "Today's consumption" becomes "today_s_consumption".
\<close>

theorem slugified_name_replaces_apostrophes:
  "slugified_name unicode_lower nm =
     map (\<lambda>c. if c = CHR '' '' \<or> c = CHR 0x27 then CHR ''_'' else c)
         (lower unicode_lower nm)
   \<and> length (slugified_name unicode_lower nm) = length (lower unicode_lower nm)
   \<and> (list_all is_ascii nm \<longrightarrow>
        slugified_name unicode_lower nm =
          map (\<lambda>c. if c = CHR '' '' \<or> c = CHR 0x27 then CHR ''_'' else lower_char c) nm)
   \<and> slugified_name unicode_lower ''Today's consumption'' = ''today_s_consumption''"
proof (intro conjI impI)
  show "slugified_name unicode_lower nm =
     map (\<lambda>c. if c = CHR '' '' \<or> c = CHR 0x27 then CHR ''_'' else c)
         (lower unicode_lower nm)"
    by (rule slugified_name_lowered)
  then show "length (slugified_name unicode_lower nm) = length (lower unicode_lower nm)"
    by simp
  show "slugified_name unicode_lower nm =
          map (\<lambda>c. if c = CHR '' '' \<or> c = CHR 0x27 then CHR ''_'' else lower_char c) nm"
    if "list_all is_ascii nm"
    using that by (rule slugified_name_ascii)
  show "slugified_name unicode_lower ''Today's consumption'' = ''today_s_consumption''"
    by (rule slugified_todays_consumption)
qed

theorem slugified_name_replaces_apostrophes_witness:
  "list_all is_ascii ''Total Energy''
   \<and> slugified_name (map lower_char) ''Total Energy'' = ''total_energy''"
proof -
  have "map (\<lambda>c. if c = CHR '' '' \<or> c = CHR 0x27 then CHR ''_'' else lower_char c)
          ''Total Energy'' = ''total_energy''"
    by code_simp
  moreover
  from slugified_name_replaces_apostrophes [of "map lower_char" "''Total Energy''"]
  have "list_all is_ascii ''Total Energy'' \<longrightarrow>
        slugified_name (map lower_char) ''Total Energy'' =
          map (\<lambda>c. if c = CHR '' '' \<or> c = CHR 0x27 then CHR ''_'' else lower_char c)
            ''Total Energy''"
    by blast
  ultimately show ?thesis
    using ascii_total_energy by simp
qed

text \<open>
  C7 (as stated) fails: the apostrophe of "Today's consumption" is not stripped, the slug
  is not "todays_consumption". The name is ASCII, so the Unicode case mapping plays no
  part; it is taken to be the ASCII one here.
\<close>

theorem slugified_name_strips_apostrophes_counterexample:
  "slugified_name (map lower_char) ''Today's consumption'' \<noteq> ''todays_consumption''"
  by (simp add: slugified_todays_consumption)

text \<open>
  C1. If the slugified name of the feature is already a key of the registry,
  \<open>_add_feature\<close> raises the duplicate-name error and the module is exactly as before;
  otherwise it returns nothing and the registry is the old one with the feature stored
  under its slugified name.
\<close>

theorem add_feature_duplicate_or_insert:
  "(slugified_name unicode_lower (name feat) \<in> dom (module_features self) \<longrightarrow>
      add_feature unicode_lower self feat =
        (Inl (KasaException
               (''Duplicate name detected '' @ slugified_name unicode_lower (name feat))),
         self))
   \<and> (slugified_name unicode_lower (name feat) \<notin> dom (module_features self) \<longrightarrow>
      add_feature unicode_lower self feat =
        (Inr (),
         self\<lparr>module_features :=
                (module_features self)(slugified_name unicode_lower (name feat) \<mapsto> feat)\<rparr>))"
  by (simp add: add_feature_def Let_def)

theorem add_feature_duplicate_or_insert_witness:
  "add_feature (map lower_char)
     \<lparr>module_key = ''emeter'',
      module_features = [''total_energy'' \<mapsto> \<lparr>name = ''total_energy''\<rparr>]\<rparr>
     \<lparr>name = ''Total Energy''\<rparr>
   = (Inl (KasaException ''Duplicate name detected total_energy''),
      \<lparr>module_key = ''emeter'',
       module_features = [''total_energy'' \<mapsto> \<lparr>name = ''total_energy''\<rparr>]\<rparr>)
   \<and> add_feature (map lower_char)
     \<lparr>module_key = ''emeter'', module_features = Map.empty\<rparr>
     \<lparr>name = ''Total Energy''\<rparr>
   = (Inr (),
      \<lparr>module_key = ''emeter'',
       module_features = [''total_energy'' \<mapsto> \<lparr>name = ''Total Energy''\<rparr>]\<rparr>)"
  using add_feature_duplicate_or_insert
          [of "map lower_char" "\<lparr>name = ''Total Energy''\<rparr>"
              "\<lparr>module_key = ''emeter'',
                module_features = [''total_energy'' \<mapsto> \<lparr>name = ''total_energy''\<rparr>]\<rparr>"]
        add_feature_duplicate_or_insert
          [of "map lower_char" "\<lparr>name = ''Total Energy''\<rparr>"
              "\<lparr>module_key = ''emeter'', module_features = Map.empty\<rparr>"]
  by (simp add: slugified_total_energy)


section \<open>Properties of the bulb operations\<close>

lemma getitem_not_kasa: "getitem ct i \<noteq> Inl (KasaException msg)"
  by (cases ct) auto

lemma is_variable_color_temp_not_kasa:
  "is_variable_color_temp self \<noteq> Inl (KasaException msg)"
  by (auto simp: is_variable_color_temp_def Let_def getitem_not_kasa split: sum.splits)

lemma valid_temperature_range_of_variable:
  assumes "is_variable_color_temp self = Inr True"
  shows "\<exists>lo hi. valid_temperature_range self = Inr (lo, hi)"
proof -
  let ?ct = "dict_get (info self) ''color_temp_range'' VNone"
  from assms have ne: "?ct \<noteq> VNone"
    by (auto simp: is_variable_color_temp_def Let_def split: if_splits)
  then have same: "dict_get (info self) ''color_temp_range'' (VList [VInt 0, VInt 0]) = ?ct"
    by (auto simp: dict_get_def split: option.splits)
  from assms ne obtain lo hi where "getitem ?ct 0 = Inr lo" "getitem ?ct 1 = Inr hi"
    by (auto simp: is_variable_color_temp_def Let_def split: if_splits sum.splits)
  then show ?thesis
    using assms by (simp add: valid_temperature_range_def same)
qed

lemma valid_temperature_range_raises_iff:
  "valid_temperature_range self = Inl (KasaException ''Color temperature not supported'')
     \<longleftrightarrow> is_variable_color_temp self = Inr False"
proof (cases "is_variable_color_temp self")
  case (Inl e)
  then show ?thesis
    using is_variable_color_temp_not_kasa [of self]
    by (auto simp: valid_temperature_range_def)
next
  case (Inr b)
  show ?thesis
  proof (cases b)
    case True
    with Inr valid_temperature_range_of_variable [of self] show ?thesis by auto
  next
    case False
    with Inr show ?thesis by (simp add: valid_temperature_range_def)
  qed
qed

lemma is_variable_color_temp_well_formed:
  assumes "info self ''color_temp_range'' = None
           \<or> info self ''color_temp_range'' = Some VNone
           \<or> (\<exists>lo hi rest. info self ''color_temp_range'' = Some (VList (lo # hi # rest)))"
  shows "is_variable_color_temp self =
           Inr (\<exists>lo hi rest. info self ''color_temp_range'' = Some (VList (lo # hi # rest))
                              \<and> lo \<noteq> hi)"
  using assms
  by (auto simp: is_variable_color_temp_def dict_get_def Let_def)

lemma raise_for_invalid_brightness_iff:
  "raise_for_invalid_brightness b = Inr () \<longleftrightarrow> b \<in> VInt ` {1..100}"
  by (cases b) (auto simp: raise_for_invalid_brightness_def)

lemma raise_for_invalid_brightness_error:
  "b \<notin> VInt ` {1..100} \<Longrightarrow>
     raise_for_invalid_brightness b
       = Inl (ValueError ''Invalid brightness value (valid range: 1-100%)'')"
  by (cases b) (auto simp: raise_for_invalid_brightness_def)

lemma set_hsv_valid:
  assumes "is_color self" "0 \<le> h" "h \<le> 360" "0 \<le> s" "s \<le> 100"
    and "v = VNone \<or> v \<in> VInt ` {1..100}"
  shows "set_hsv self (VInt h) (VInt s) v =
           protocol_query self
             [''set_device_info'' \<mapsto>
                (if v \<noteq> VNone
                 then [''color_temp'' \<mapsto> VInt 0, ''hue'' \<mapsto> VInt h,
                       ''saturation'' \<mapsto> VInt s, ''brightness'' \<mapsto> v]
                 else [''color_temp'' \<mapsto> VInt 0, ''hue'' \<mapsto> VInt h,
                       ''saturation'' \<mapsto> VInt s])]"
proof (cases "v = VNone")
  case True
  with assms show ?thesis by (simp add: set_hsv_def)
next
  case False
  with assms have "raise_for_invalid_brightness v = Inr ()"
    by (simp add: raise_for_invalid_brightness_iff)
  with assms False show ?thesis by (simp add: set_hsv_def)
qed

text \<open>
  C2. When the blob has no \<open>color_temp_range\<close>, or it is \<open>None\<close>, or it is a list
  of at least two elements, \<open>is_variable_color_temp\<close> is true exactly if the range is
  present with a first element (the minimum) different from the second (the maximum).
  For every blob, \<open>valid_temperature_range\<close> raises the capability error exactly when
  \<open>is_variable_color_temp\<close> is false; a blob with \<open>color_temp_range = [9000, 9000]\<close>
  raises it although the key is present.
\<close>

theorem variable_color_temp_iff_bounds_differ:
  "(info self ''color_temp_range'' = None
      \<or> info self ''color_temp_range'' = Some VNone
      \<or> (\<exists>lo hi rest. info self ''color_temp_range'' = Some (VList (lo # hi # rest)))
    \<longrightarrow> is_variable_color_temp self =
          Inr (\<exists>lo hi rest. info self ''color_temp_range'' = Some (VList (lo # hi # rest))
                             \<and> lo \<noteq> hi))
   \<and> (valid_temperature_range self = Inl (KasaException ''Color temperature not supported'')
        \<longleftrightarrow> is_variable_color_temp self = Inr False)
   \<and> (info self ''color_temp_range'' = Some (VList [VInt 9000, VInt 9000])
        \<longrightarrow> valid_temperature_range self
              = Inl (KasaException ''Color temperature not supported''))"
proof (intro conjI impI)
  assume "info self ''color_temp_range'' = Some (VList [VInt 9000, VInt 9000])"
  then have "is_variable_color_temp self = Inr False"
    by (simp add: is_variable_color_temp_def dict_get_def)
  then show "valid_temperature_range self
              = Inl (KasaException ''Color temperature not supported'')"
    by (simp add: valid_temperature_range_raises_iff)
qed (simp_all add: is_variable_color_temp_well_formed valid_temperature_range_raises_iff)

theorem variable_color_temp_iff_bounds_differ_witness:
  "is_variable_color_temp
     \<lparr>info = [''color_temp_range'' \<mapsto> VList [VInt 9000, VInt 9000]], modules = {},
      protocol = (\<lambda>r. Inr Map.empty), sent = []\<rparr> = Inr False
   \<and> valid_temperature_range
     \<lparr>info = [''color_temp_range'' \<mapsto> VList [VInt 9000, VInt 9000]], modules = {},
      protocol = (\<lambda>r. Inr Map.empty), sent = []\<rparr>
     = Inl (KasaException ''Color temperature not supported'')
   \<and> is_variable_color_temp
     \<lparr>info = [''color_temp_range'' \<mapsto> VList [VInt 2500, VInt 6500]], modules = {},
      protocol = (\<lambda>r. Inr Map.empty), sent = []\<rparr> = Inr True"
  using variable_color_temp_iff_bounds_differ
          [of "\<lparr>info = [''color_temp_range'' \<mapsto> VList [VInt 9000, VInt 9000]], modules = {},
                protocol = (\<lambda>r. Inr Map.empty), sent = []\<rparr>"]
        variable_color_temp_iff_bounds_differ
          [of "\<lparr>info = [''color_temp_range'' \<mapsto> VList [VInt 2500, VInt 6500]], modules = {},
                protocol = (\<lambda>r. Inr Map.empty), sent = []\<rparr>"]
  by simp

text \<open>
  C3. On a bulb whose info blob has no \<open>hue\<close> key, \<open>set_hsv\<close> raises the capability
  error whatever the hue, saturation and value arguments are, valid or not, and the bulb
  is unchanged: nothing was handed to the protocol.
\<close>

theorem set_hsv_requires_color:
  "''hue'' \<notin> dom (info self) \<Longrightarrow>
     set_hsv self hue saturation v = (Inl (KasaException ''Bulb does not support color.''), self)
     \<and> sent (snd (set_hsv self hue saturation v)) = sent self"
  by (simp add: set_hsv_def is_color_def)

theorem set_hsv_requires_color_witness:
  "set_hsv \<lparr>info = [''brightness'' \<mapsto> VInt 50], modules = {''Brightness''},
            protocol = (\<lambda>r. Inr Map.empty), sent = []\<rparr>
     (VInt 999) (VStr ''red'') (VInt 0)
   = (Inl (KasaException ''Bulb does not support color.''),
      \<lparr>info = [''brightness'' \<mapsto> VInt 50], modules = {''Brightness''},
       protocol = (\<lambda>r. Inr Map.empty), sent = []\<rparr>)"
  using set_hsv_requires_color
          [of "\<lparr>info = [''brightness'' \<mapsto> VInt 50], modules = {''Brightness''},
                protocol = (\<lambda>r. Inr Map.empty), sent = []\<rparr>"
              "VInt 999" "VStr ''red''" "VInt 0"]
  by simp

text \<open>
  C6. On a dimmable bulb, \<open>set_brightness\<close> with an argument that is not an integer
  in 1..100 raises the validation error and the bulb is unchanged: no request was
  handed to the protocol. In particular for 0 and 101.
\<close>

theorem set_brightness_validates_first:
  "is_dimmable self \<Longrightarrow>
     (b \<notin> VInt ` {1..100} \<longrightarrow>
        set_brightness self b
          = (Inl (ValueError ''Invalid brightness value (valid range: 1-100%)''), self)
        \<and> sent (snd (set_brightness self b)) = sent self)
     \<and> set_brightness self (VInt 0)
          = (Inl (ValueError ''Invalid brightness value (valid range: 1-100%)''), self)
     \<and> set_brightness self (VInt 101)
          = (Inl (ValueError ''Invalid brightness value (valid range: 1-100%)''), self)"
proof -
  assume d: "is_dimmable self"
  have invalid: "set_brightness self x
          = (Inl (ValueError ''Invalid brightness value (valid range: 1-100%)''), self)"
    if "x \<notin> VInt ` {1..100}" for x
    using d that by (simp add: set_brightness_def raise_for_invalid_brightness_error)
  have "VInt 0 \<notin> VInt ` {1..100}" and "VInt 101 \<notin> VInt ` {1..100}"
    by auto
  then show ?thesis
    using invalid by simp
qed

theorem set_brightness_validates_first_witness:
  "set_brightness \<lparr>info = Map.empty, modules = {''Brightness''},
                   protocol = (\<lambda>r. Inr Map.empty), sent = []\<rparr> (VStr ''50'')
     = (Inl (ValueError ''Invalid brightness value (valid range: 1-100%)''),
        \<lparr>info = Map.empty, modules = {''Brightness''},
         protocol = (\<lambda>r. Inr Map.empty), sent = []\<rparr>)
   \<and> set_brightness \<lparr>info = Map.empty, modules = {''Brightness''},
                   protocol = (\<lambda>r. Inr Map.empty), sent = []\<rparr> (VInt 0)
     = (Inl (ValueError ''Invalid brightness value (valid range: 1-100%)''),
        \<lparr>info = Map.empty, modules = {''Brightness''},
         protocol = (\<lambda>r. Inr Map.empty), sent = []\<rparr>)
   \<and> set_brightness \<lparr>info = Map.empty, modules = {''Brightness''},
                   protocol = (\<lambda>r. Inr Map.empty), sent = []\<rparr> (VInt 101)
     = (Inl (ValueError ''Invalid brightness value (valid range: 1-100%)''),
        \<lparr>info = Map.empty, modules = {''Brightness''},
         protocol = (\<lambda>r. Inr Map.empty), sent = []\<rparr>)"
proof -
  let ?b = "\<lparr>info = Map.empty, modules = {''Brightness''},
            protocol = (\<lambda>r. Inr Map.empty), sent = []\<rparr>"
  have d: "is_dimmable ?b" by (simp add: is_dimmable_def)
  have "VStr ''50'' \<notin> VInt ` {1..100}" by auto
  with set_brightness_validates_first [OF d, of "VStr ''50''"] show ?thesis by simp
qed

text \<open>
  C8. On a bulb with color support, \<open>set_hsv\<close> with an integer hue in 0..360, an
  integer saturation in 0..100 and a value that is absent or an integer in 1..100 hands
  exactly one request to the protocol, \<open>set_device_info\<close> with a payload that sets
  \<open>color_temp\<close> to 0, \<open>hue\<close> and \<open>saturation\<close> to the arguments, and has a
  \<open>brightness\<close> field exactly when a value was given (then it is that value); the
  result is the protocol's answer to that request.
\<close>

theorem set_hsv_request_payload:
  assumes "is_color self" "0 \<le> h" "h \<le> 360" "0 \<le> s" "s \<le> 100"
    and "v = VNone \<or> v \<in> VInt ` {1..100}"
  shows "\<exists>payload.
           set_hsv self (VInt h) (VInt s) v =
             (protocol self [''set_device_info'' \<mapsto> payload],
              self\<lparr>sent := sent self @ [[''set_device_info'' \<mapsto> payload]]\<rparr>)
           \<and> payload ''color_temp'' = Some (VInt 0)
           \<and> payload ''hue'' = Some (VInt h)
           \<and> payload ''saturation'' = Some (VInt s)
           \<and> (''brightness'' \<in> dom payload \<longleftrightarrow> v \<noteq> VNone)
           \<and> (v \<noteq> VNone \<longrightarrow> payload ''brightness'' = Some v)
           \<and> dom payload \<subseteq> {''color_temp'', ''hue'', ''saturation'', ''brightness''}"
proof (cases "v = VNone")
  case True
  let ?p = "[''color_temp'' \<mapsto> VInt 0, ''hue'' \<mapsto> VInt h, ''saturation'' \<mapsto> VInt s]"
  from True set_hsv_valid [OF assms]
  have "set_hsv self (VInt h) (VInt s) v = protocol_query self [''set_device_info'' \<mapsto> ?p]"
    by simp
  with True show ?thesis
    by (intro exI [of _ ?p]) (simp add: protocol_query_def)
next
  case False
  let ?p = "[''color_temp'' \<mapsto> VInt 0, ''hue'' \<mapsto> VInt h, ''saturation'' \<mapsto> VInt s,
             ''brightness'' \<mapsto> v]"
  from False set_hsv_valid [OF assms]
  have "set_hsv self (VInt h) (VInt s) v = protocol_query self [''set_device_info'' \<mapsto> ?p]"
    by simp
  with False show ?thesis
    by (intro exI [of _ ?p]) (simp add: protocol_query_def)
qed

theorem set_hsv_request_payload_witness:
  "\<exists>payload.
     set_hsv \<lparr>info = [''hue'' \<mapsto> VInt 0], modules = {},
              protocol = (\<lambda>r. Inr Map.empty), sent = []\<rparr> (VInt 120) (VInt 80) (VInt 50)
       = (Inr Map.empty,
          \<lparr>info = [''hue'' \<mapsto> VInt 0], modules = {}, protocol = (\<lambda>r. Inr Map.empty),
           sent = [[''set_device_info'' \<mapsto> payload]]\<rparr>)
     \<and> payload ''color_temp'' = Some (VInt 0)
     \<and> payload ''hue'' = Some (VInt 120)
     \<and> payload ''saturation'' = Some (VInt 80)
     \<and> payload ''brightness'' = Some (VInt 50)
     \<and> dom payload \<subseteq> {''color_temp'', ''hue'', ''saturation'', ''brightness''}"
proof -
  let ?b = "\<lparr>info = [''hue'' \<mapsto> VInt 0], modules = {},
            protocol = (\<lambda>r. Inr Map.empty), sent = []\<rparr>"
  have c: "is_color ?b" by (simp add: is_color_def)
  have v: "VInt 50 = VNone \<or> VInt 50 \<in> VInt ` {1..100}" by simp
  have "(0::int) \<le> 120" "(120::int) \<le> 360" "(0::int) \<le> 80" "(80::int) \<le> 100"
    by simp_all
  from set_hsv_request_payload [OF c this v]
  obtain payload where
    "set_hsv ?b (VInt 120) (VInt 80) (VInt 50) =
           (protocol ?b [''set_device_info'' \<mapsto> payload],
            ?b\<lparr>sent := sent ?b @ [[''set_device_info'' \<mapsto> payload]]\<rparr>)"
    "payload ''color_temp'' = Some (VInt 0)"
    "payload ''hue'' = Some (VInt 120)"
    "payload ''saturation'' = Some (VInt 80)"
    "VInt 50 \<noteq> VNone \<longrightarrow> payload ''brightness'' = Some (VInt 50)"
    "dom payload \<subseteq> {''color_temp'', ''hue'', ''saturation'', ''brightness''}"
    by blast
  then show ?thesis
    by (intro exI [of _ payload]) simp
qed


section \<open>Properties of the statistics conversion\<close>

text \<open>
  The search from the end: nothing is found when no record carries the key, and the
  first record found is the one after which no record carries it.
\<close>

lemma first_entry_no_match:
  assumes "\<forall>e \<in> set es. \<exists>k. e entry_key = Some k \<and> \<not> py_eq ops k key"
  shows "first_entry ops entry_key value_key scale key es = Inr []"
  using assms by (induction es) auto

lemma first_entry_match:
  assumes "\<forall>e \<in> set pre. \<exists>k. e entry_key = Some k \<and> \<not> py_eq ops k key"
    and "e entry_key = Some k" and "py_eq ops k key" and "e value_key = Some v"
  shows "first_entry ops entry_key value_key scale key (pre @ e # post)
           = (case py_mul ops v scale of Inl err \<Rightarrow> Inl err | Inr r \<Rightarrow> Inr [(k, r)])"
  using assms by (induction pre) auto

lemma rev_split_at:
  assumes "i < length xs"
  shows "rev xs = rev (drop (Suc i) xs) @ xs ! i # rev (take i xs)"
proof -
  from assms have eq: "xs = take i xs @ xs ! i # drop (Suc i) xs"
    by (rule id_take_nth_drop)
  have "rev xs = rev (take i xs @ xs ! i # drop (Suc i) xs)"
    by (rule arg_cong [OF eq])
  also have "\<dots> = rev (drop (Suc i) xs) @ xs ! i # rev (take i xs)"
    by (simp only: rev_append rev.simps append_assoc append_Cons append_Nil)
  finally show ?thesis .
qed

lemma set_drop_index:
  "x \<in> set (drop n xs) \<Longrightarrow> \<exists>j. n \<le> j \<and> j < length xs \<and> xs ! j = x"
proof -
  assume "x \<in> set (drop n xs)"
  then obtain i where i: "i < length (drop n xs)" and x: "drop n xs ! i = x"
    by (auto simp: in_set_conv_nth)
  from i have "n + i < length xs" by simp
  moreover from i x have "xs ! (n + i) = x" by simp
  ultimately show ?thesis
    by (intro exI [of _ "n + i"]) simp
qed

lemma convert_single_key_last:
  assumes "i < length data"
    and fields: "\<forall>e \<in> set data. entry_key \<in> dom e"
    and hit: "(data ! i) entry_key = Some k" "py_eq ops k (PInt key)"
    and later: "\<forall>j k'. i < j \<and> j < length data \<and> (data ! j) entry_key = Some k'
                  \<longrightarrow> \<not> py_eq ops k' (PInt key)"
    and v: "(data ! i) (value_key_of data) = Some v"
  shows "convert_stat_data ops data entry_key kwh (Some key)
           = (case py_mul ops v (scale_of ops data kwh) of
                Inl err \<Rightarrow> Inl err
              | Inr r \<Rightarrow> Inr [(k, r)])"
proof -
  from assms(1) have ne: "data \<noteq> []" by auto
  have "\<forall>e \<in> set (rev (drop (Suc i) data)).
           \<exists>k'. e entry_key = Some k' \<and> \<not> py_eq ops k' (PInt key)"
  proof
    fix e assume "e \<in> set (rev (drop (Suc i) data))"
    then have e: "e \<in> set (drop (Suc i) data)" by (simp only: set_rev)
    then obtain j where j: "Suc i \<le> j" "j < length data" and ej: "data ! j = e"
      using set_drop_index [of e "Suc i" data] by blast
    from e have "e \<in> set data"
      by (rule in_set_dropD)
    with fields obtain k' where k': "e entry_key = Some k'" by blast
    from j have "i < j \<and> j < length data" by simp
    with later [rule_format, of j k'] ej k' have "\<not> py_eq ops k' (PInt key)" by simp
    with k' show "\<exists>k'. e entry_key = Some k' \<and> \<not> py_eq ops k' (PInt key)" by blast
  qed
  from first_entry_match [OF this hit v]
  have "first_entry ops entry_key (value_key_of data) (scale_of ops data kwh) (PInt key)
          (rev (drop (Suc i) data) @ data ! i # rev (take i data))
          = (case py_mul ops v (scale_of ops data kwh) of
                Inl err \<Rightarrow> Inl err
              | Inr r \<Rightarrow> Inr [(k, r)])" .
  moreover have "rev data = rev (drop (Suc i) data) @ data ! i # rev (take i data)"
    using assms(1) by (rule rev_split_at)
  ultimately
  have "first_entry ops entry_key (value_key_of data) (scale_of ops data kwh) (PInt key)
          (rev data)
          = (case py_mul ops v (scale_of ops data kwh) of
                Inl err \<Rightarrow> Inl err
              | Inr r \<Rightarrow> Inr [(k, r)])"
    by (simp only:)
  with ne show ?thesis
    by (simp add: convert_stat_data_def)
qed

lemma convert_single_key_none:
  assumes "\<forall>e \<in> set data. entry_key \<in> dom e"
    and "\<forall>e \<in> set data. \<forall>k. e entry_key = Some k \<longrightarrow> \<not> py_eq ops k (PInt key)"
  shows "convert_stat_data ops data entry_key kwh (Some key) = Inr []"
proof -
  have "\<forall>e \<in> set (rev data). \<exists>k. e entry_key = Some k \<and> \<not> py_eq ops k (PInt key)"
  proof
    fix e assume "e \<in> set (rev data)"
    then have e: "e \<in> set data" by simp
    with assms(1) obtain k where k: "e entry_key = Some k" by blast
    with assms(2) e have "\<not> py_eq ops k (PInt key)" by blast
    with k show "\<exists>k. e entry_key = Some k \<and> \<not> py_eq ops k (PInt key)" by blast
  qed
  from first_entry_no_match [OF this] show ?thesis
    by (simp add: convert_stat_data_def)
qed

lemma current_none:
  assumes "\<forall>e \<in> set raw. entry_key \<in> dom e"
    and "\<forall>e \<in> set raw. \<forall>k. e entry_key = Some k \<longrightarrow> \<not> py_eq ops k (PInt key)"
  shows "convert_stat_data ops raw entry_key True (Some key) = Inr []"
  using assms by (rule convert_single_key_none)

lemma current_last:
  assumes "\<forall>e \<in> set raw. entry_key \<in> dom e"
    and "i < length raw
         \<and> (raw ! i) entry_key = Some k \<and> py_eq ops k (PInt key)
         \<and> (\<forall>j k'. i < j \<and> j < length raw \<and> (raw ! j) entry_key = Some k'
                \<longrightarrow> \<not> py_eq ops k' (PInt key))
         \<and> (raw ! i) (if ''energy_wh'' \<in> dom (hd raw) then ''energy_wh'' else ''energy'')
             = Some v"
  shows "(case convert_stat_data ops raw entry_key True (Some key) of
            Inl e \<Rightarrow> Inl e
          | Inr data \<Rightarrow> Inr (num_dict_get ops data (PInt key)))
           = (case py_mul ops v (if ''energy_wh'' \<in> dom (hd raw)
                                 then PFloat (true_div ops 1 1000) else PInt 1) of
                Inl err \<Rightarrow> Inl err
              | Inr r \<Rightarrow> Inr (Some r))"
proof -
  from assms(2) have v: "(raw ! i) (value_key_of raw) = Some v"
    by (simp only: value_key_of_def)
  from assms(2) have i: "i < length raw" and k: "(raw ! i) entry_key = Some k"
    and eq: "py_eq ops k (PInt key)"
    and later: "\<forall>j k'. i < j \<and> j < length raw \<and> (raw ! j) entry_key = Some k'
                \<longrightarrow> \<not> py_eq ops k' (PInt key)"
    by blast+
  have sc: "scale_of ops raw True
              = (if ''energy_wh'' \<in> dom (hd raw) then PFloat (true_div ops 1 1000) else PInt 1)"
    by (simp add: scale_of_def)
  have "convert_stat_data ops raw entry_key True (Some key)
           = (case py_mul ops v (scale_of ops raw True) of
                Inl err \<Rightarrow> Inl err
              | Inr r \<Rightarrow> Inr [(k, r)])"
    using i assms(1) k eq later v by (rule convert_single_key_last)
  with eq show ?thesis
    unfolding sc by (simp split: sum.splits)
qed

text \<open>
  Dictionaries whose keys are ints, and the dictionary built from a whole series.
\<close>

lemma num_dict_set_keys:
  assumes "fst ` set d \<subseteq> range PInt"
  shows "fst ` set (num_dict_set ops d (PInt n) v) = insert (PInt n) (fst ` set d)"
  using assms
proof (induction d)
  case Nil
  then show ?case by simp
next
  case (Cons kv d)
  obtain k' v' where kv: "kv = (k', v')" by (cases kv)
  with Cons.prems obtain m where m: "k' = PInt m" by auto
  from Cons.prems have "fst ` set d \<subseteq> range PInt" by auto
  from Cons.IH [OF this] kv m show ?case by auto
qed

lemma num_dict_get_set:
  assumes "fst ` set d \<subseteq> range PInt"
  shows "num_dict_get ops (num_dict_set ops d (PInt n) v) (PInt n')
           = (if n = n' then Some v else num_dict_get ops d (PInt n'))"
  using assms
proof (induction d)
  case Nil
  then show ?case by simp
next
  case (Cons kv d)
  obtain k' v' where kv: "kv = (k', v')" by (cases kv)
  with Cons.prems obtain m where m: "k' = PInt m" by auto
  from Cons.prems have "fst ` set d \<subseteq> range PInt" by auto
  from Cons.IH [OF this] kv m show ?case by auto
qed

lemma num_dict_set_distinct:
  assumes "fst ` set d \<subseteq> range PInt" and "distinct (map fst d)"
  shows "distinct (map fst (num_dict_set ops d (PInt n) v))"
  using assms
proof (induction d)
  case Nil
  then show ?case by simp
next
  case (Cons kv d)
  obtain k' v' where kv: "kv = (k', v')" by (cases kv)
  with Cons.prems obtain m where m: "k' = PInt m" by auto
  from Cons.prems have sub: "fst ` set d \<subseteq> range PInt" and dist: "distinct (map fst d)"
    by auto
  show ?case
  proof (cases "m = n")
    case True
    with Cons.prems kv m show ?thesis by simp
  next
    case False
    from Cons.prems kv have "k' \<notin> fst ` set d" by simp
    with False m have "k' \<notin> fst ` set (num_dict_set ops d (PInt n) v)"
      by (simp add: num_dict_set_keys [OF sub])
    with Cons.IH [OF sub dist] False kv m show ?thesis by simp
  qed
qed

lemma all_entries_step:
  assumes "all_entries ops entry_key value_key scale (e # es) acc = Inr m"
  obtains k v r where "e entry_key = Some k" "e value_key = Some v"
    "py_mul ops v scale = Inr r"
    "all_entries ops entry_key value_key scale es (num_dict_set ops acc k r) = Inr m"
  using assms by (auto split: option.splits sum.splits)

lemma all_entries_total:
  assumes "\<forall>e \<in> set es. (\<exists>k. e entry_key = Some k)
                         \<and> (\<exists>v r. e value_key = Some v \<and> py_mul ops v scale = Inr r)"
  shows "\<exists>m. all_entries ops entry_key value_key scale es acc = Inr m"
  using assms
proof (induction es arbitrary: acc)
  case Nil
  then show ?case by simp
next
  case (Cons e es)
  from Cons.prems obtain k v r where "e entry_key = Some k" "e value_key = Some v"
    "py_mul ops v scale = Inr r"
    by auto
  moreover from Cons.prems Cons.IH [of "num_dict_set ops acc k r"]
  obtain m where "all_entries ops entry_key value_key scale es (num_dict_set ops acc k r) = Inr m"
    by auto
  ultimately show ?case by simp
qed

lemma all_entries_keys:
  assumes "all_entries ops entry_key value_key scale es acc = Inr m"
    and "\<forall>e \<in> set es. \<exists>n. e entry_key = Some (PInt n)"
    and "fst ` set acc \<subseteq> range PInt"
  shows "fst ` set m = fst ` set acc \<union> {k. \<exists>e \<in> set es. e entry_key = Some k}
         \<and> (distinct (map fst acc) \<longrightarrow> distinct (map fst m))"
  using assms
proof (induction es arbitrary: acc)
  case Nil
  then show ?case by simp
next
  case (Cons e es)
  from Cons.prems(1) obtain k v r where k: "e entry_key = Some k"
    and rest: "all_entries ops entry_key value_key scale es (num_dict_set ops acc k r) = Inr m"
    by (rule all_entries_step)
  from Cons.prems(2) k obtain n where n: "k = PInt n" by auto
  from Cons.prems(2) have es: "\<forall>e \<in> set es. \<exists>n. e entry_key = Some (PInt n)" by simp
  have keys: "fst ` set (num_dict_set ops acc k r) = insert k (fst ` set acc)"
    unfolding n using Cons.prems(3) by (rule num_dict_set_keys)
  with Cons.prems(3) n have sub: "fst ` set (num_dict_set ops acc k r) \<subseteq> range PInt"
    by auto
  have dist: "distinct (map fst (num_dict_set ops acc k r))" if "distinct (map fst acc)"
    unfolding n using Cons.prems(3) that by (rule num_dict_set_distinct)
  from k have "{k'. \<exists>x \<in> set (e # es). x entry_key = Some k'}
          = insert k {k'. \<exists>x \<in> set es. x entry_key = Some k'}"
    by auto
  with Cons.IH [OF rest es sub] keys dist show ?case
    by (simp only:) blast
qed

lemma all_entries_absent:
  assumes "all_entries ops entry_key value_key scale es acc = Inr m"
    and "\<forall>e \<in> set es. \<exists>n. e entry_key = Some (PInt n)"
    and "fst ` set acc \<subseteq> range PInt"
    and "\<forall>e \<in> set es. e entry_key \<noteq> Some (PInt n)"
  shows "num_dict_get ops m (PInt n) = num_dict_get ops acc (PInt n)"
  using assms
proof (induction es arbitrary: acc)
  case Nil
  then show ?case by simp
next
  case (Cons e es)
  from Cons.prems(1) obtain k v r where k: "e entry_key = Some k"
    and rest: "all_entries ops entry_key value_key scale es (num_dict_set ops acc k r) = Inr m"
    by (rule all_entries_step)
  from Cons.prems(2) k obtain n' where n': "k = PInt n'" by auto
  with Cons.prems(4) k have ne: "n' \<noteq> n" by auto
  from Cons.prems(2) have es: "\<forall>e \<in> set es. \<exists>n. e entry_key = Some (PInt n)" by simp
  from Cons.prems(4) have no: "\<forall>e \<in> set es. e entry_key \<noteq> Some (PInt n)" by simp
  have "fst ` set (num_dict_set ops acc k r) = insert k (fst ` set acc)"
    unfolding n' using Cons.prems(3) by (rule num_dict_set_keys)
  with Cons.prems(3) n' have sub: "fst ` set (num_dict_set ops acc k r) \<subseteq> range PInt"
    by auto
  from Cons.IH [OF rest es sub no]
  have "num_dict_get ops m (PInt n) = num_dict_get ops (num_dict_set ops acc k r) (PInt n)" .
  also have "\<dots> = num_dict_get ops acc (PInt n)"
    unfolding n' using ne by (simp add: num_dict_get_set [OF Cons.prems(3)])
  finally show ?case .
qed

lemma all_entries_last:
  assumes "all_entries ops entry_key value_key scale es acc = Inr m"
    and "\<forall>e \<in> set es. \<exists>n. e entry_key = Some (PInt n)"
    and "fst ` set acc \<subseteq> range PInt"
    and "i < length es"
    and "(es ! i) entry_key = Some (PInt n)" and "(es ! i) value_key = Some v"
    and "py_mul ops v scale = Inr r"
    and "\<forall>j. i < j \<and> j < length es \<longrightarrow> (es ! j) entry_key \<noteq> Some (PInt n)"
  shows "num_dict_get ops m (PInt n) = Some r"
  using assms
proof (induction es arbitrary: acc i)
  case Nil
  then show ?case by simp
next
  case (Cons e es)
  from Cons.prems(1) obtain k' v' r' where k': "e entry_key = Some k'"
    and v': "e value_key = Some v'" and r': "py_mul ops v' scale = Inr r'"
    and rest: "all_entries ops entry_key value_key scale es (num_dict_set ops acc k' r') = Inr m"
    by (rule all_entries_step)
  from Cons.prems(2) k' obtain n' where n': "k' = PInt n'" by auto
  from Cons.prems(2) have es: "\<forall>e \<in> set es. \<exists>n. e entry_key = Some (PInt n)" by simp
  have "fst ` set (num_dict_set ops acc k' r') = insert k' (fst ` set acc)"
    unfolding n' using Cons.prems(3) by (rule num_dict_set_keys)
  with Cons.prems(3) n' have sub: "fst ` set (num_dict_set ops acc k' r') \<subseteq> range PInt"
    by auto
  show ?case
  proof (cases i)
    case 0
    with Cons.prems(5,6,7) k' v' r' have same: "k' = PInt n" "r' = r" by auto
    have no: "\<forall>x \<in> set es. x entry_key \<noteq> Some (PInt n)"
    proof
      fix x assume "x \<in> set es"
      then obtain j where "j < length es" "es ! j = x"
        by (auto simp: in_set_conv_nth)
      with Cons.prems(8) [rule_format, of "Suc j"] 0 show "x entry_key \<noteq> Some (PInt n)"
        by simp
    qed
    from all_entries_absent [OF rest es sub no]
    have "num_dict_get ops m (PInt n) = num_dict_get ops (num_dict_set ops acc k' r') (PInt n)" .
    also have "\<dots> = Some r"
      unfolding same by (simp add: num_dict_get_set [OF Cons.prems(3)])
    finally show ?thesis .
  next
    case (Suc i')
    with Cons.prems have "i' < length es" "(es ! i') entry_key = Some (PInt n)"
      "(es ! i') value_key = Some v"
      by auto
    moreover have "\<forall>j. i' < j \<and> j < length es \<longrightarrow> (es ! j) entry_key \<noteq> Some (PInt n)"
    proof (intro allI impI)
      fix j assume "i' < j \<and> j < length es"
      with Cons.prems(8) [rule_format, of "Suc j"] Suc
      show "(es ! j) entry_key \<noteq> Some (PInt n)" by simp
    qed
    ultimately show ?thesis
      using Cons.IH [OF rest es sub _ _ _ Cons.prems(7)] by blast
  qed
qed

lemma all_entries_failure:
  assumes "i < length es"
    and "\<forall>e \<in> set es. entry_key \<in> dom e"
    and "(es ! i) value_key = Some v" and "py_mul ops v scale = Inl err"
    and "\<forall>j. j < i \<longrightarrow> (\<exists>v' r. (es ! j) value_key = Some v' \<and> py_mul ops v' scale = Inr r)"
  shows "all_entries ops entry_key value_key scale es acc = Inl err"
  using assms
proof (induction es arbitrary: acc i)
  case Nil
  then show ?case by simp
next
  case (Cons e es)
  from Cons.prems(2) obtain k where k: "e entry_key = Some k" by auto
  show ?case
  proof (cases i)
    case 0
    with Cons.prems(3,4) k show ?thesis by simp
  next
    case (Suc i')
    from Cons.prems(5) [rule_format, of 0] Suc
    obtain v' r where v': "e value_key = Some v'" "py_mul ops v' scale = Inr r"
      by auto
    from Cons.prems Suc have "i' < length es" "\<forall>e \<in> set es. entry_key \<in> dom e"
      "(es ! i') value_key = Some v"
      by auto
    moreover have "\<forall>j. j < i' \<longrightarrow>
        (\<exists>v' r. (es ! j) value_key = Some v' \<and> py_mul ops v' scale = Inr r)"
    proof (intro allI impI)
      fix j assume "j < i'"
      with Cons.prems(5) [rule_format, of "Suc j"] Suc
      show "\<exists>v' r. (es ! j) value_key = Some v' \<and> py_mul ops v' scale = Inr r" by simp
    qed
    ultimately
    have "all_entries ops entry_key value_key scale es (num_dict_set ops acc k r) = Inl err"
      using Cons.prems(4) by (intro Cons.IH) simp_all
    with k v' show ?thesis by simp
  qed
qed

text \<open>
  C4. For a non-empty series whose records all have the \<open>entry_key\<close> field,
  single-key mode returns the one-entry mapping from the key to the scaled energy value
  of the last record of the list whose \<open>entry_key\<close> field \<open>==\<close> the key, and the
  empty mapping when no record matches. The value field and the scale are those inferred
  from the first record, and the scaled value is the Python product
  \<open>entry[value_key] * scale\<close> (should that product raise, converting an int too large
  for a float, the call raises the same error). For the kWh series of months 1 and 2
  with energy 5.0, queried with \<open>kwh = False\<close> and key 2, the result is
  \<open>{2: 5000.0}\<close>.
\<close>

theorem convert_stat_data_single_key:
  assumes "data \<noteq> []"
    and "\<forall>e \<in> set data. entry_key \<in> dom e"
    and "value_key = (if ''energy_wh'' \<in> dom (hd data) then ''energy_wh'' else ''energy'')"
    and "scale = (if ''energy_wh'' \<in> dom (hd data)
                  then (if kwh then PFloat (true_div ops 1 1000) else PInt 1)
                  else (if kwh then PInt 1 else PInt 1000))"
  shows "(\<forall>i k v. i < length data
                \<and> (data ! i) entry_key = Some k \<and> py_eq ops k (PInt key)
                \<and> (\<forall>j k'. i < j \<and> j < length data \<and> (data ! j) entry_key = Some k'
                        \<longrightarrow> \<not> py_eq ops k' (PInt key))
                \<and> (data ! i) value_key = Some v
             \<longrightarrow> convert_stat_data ops data entry_key kwh (Some key)
                   = (case py_mul ops v scale of
                        Inl err \<Rightarrow> Inl err
                      | Inr r \<Rightarrow> Inr [(k, r)]))
         \<and> ((\<forall>e \<in> set data. \<forall>k. e entry_key = Some k \<longrightarrow> \<not> py_eq ops k (PInt key))
             \<longrightarrow> convert_stat_data ops data entry_key kwh (Some key) = Inr [])"
proof (intro conjI allI impI)
  fix i k v
  assume a: "i < length data
                \<and> (data ! i) entry_key = Some k \<and> py_eq ops k (PInt key)
                \<and> (\<forall>j k'. i < j \<and> j < length data \<and> (data ! j) entry_key = Some k'
                        \<longrightarrow> \<not> py_eq ops k' (PInt key))
                \<and> (data ! i) value_key = Some v"
  from assms(3) have vk: "value_key = value_key_of data"
    by (simp add: value_key_of_def)
  from assms(4) have sc: "scale = scale_of ops data kwh"
    by (simp add: scale_of_def)
  from a have i: "i < length data" and k: "(data ! i) entry_key = Some k"
    and eq: "py_eq ops k (PInt key)"
    and later: "\<forall>j k'. i < j \<and> j < length data \<and> (data ! j) entry_key = Some k'
                        \<longrightarrow> \<not> py_eq ops k' (PInt key)"
    by blast+
  from a vk have v: "(data ! i) (value_key_of data) = Some v" by simp
  show "convert_stat_data ops data entry_key kwh (Some key)
                   = (case py_mul ops v scale of
                        Inl err \<Rightarrow> Inl err
                      | Inr r \<Rightarrow> Inr [(k, r)])"
    unfolding sc using i assms(2) k eq later v by (rule convert_single_key_last)
next
  assume "\<forall>e \<in> set data. \<forall>k. e entry_key = Some k \<longrightarrow> \<not> py_eq ops k (PInt key)"
  with assms(2) show "convert_stat_data ops data entry_key kwh (Some key) = Inr []"
    by (rule convert_single_key_none)
qed

theorem convert_stat_data_single_key_witness:
  "convert_stat_data exact_ops
     [[''month'' \<mapsto> PInt 1, ''energy'' \<mapsto> PFloat 5], [''month'' \<mapsto> PInt 2, ''energy'' \<mapsto> PFloat 5]]
     ''month'' False (Some 2) = Inr [(PInt 2, PFloat 5000)]
   \<and> convert_stat_data exact_ops
     [[''month'' \<mapsto> PInt 1, ''energy'' \<mapsto> PFloat 5], [''month'' \<mapsto> PInt 2, ''energy'' \<mapsto> PFloat 5]]
     ''month'' False (Some 3) = Inr []"
proof -
  let ?d = "[[''month'' \<mapsto> PInt 1, ''energy'' \<mapsto> PFloat 5],
             [''month'' \<mapsto> PInt 2, ''energy'' \<mapsto> PFloat (5::rat)]]"
  have ne: "?d \<noteq> []" by simp
  have fields: "\<forall>e \<in> set ?d. ''month'' \<in> dom e" by simp
  have vk: "''energy'' = (if ''energy_wh'' \<in> dom (hd ?d) then ''energy_wh'' else ''energy'')"
    by simp
  have sc: "PInt 1000 = (if ''energy_wh'' \<in> dom (hd ?d)
                  then (if False then PFloat (true_div exact_ops 1 1000) else PInt 1)
                  else (if False then PInt 1 else PInt 1000))"
    by simp
  note t2 = convert_stat_data_single_key [OF ne fields vk sc, where key = 2]
  note t3 = convert_stat_data_single_key [OF ne fields vk sc, where key = 3]
  have later: "\<forall>j k'. 1 < j \<and> j < length ?d \<and> (?d ! j) ''month'' = Some k'
                 \<longrightarrow> \<not> py_eq exact_ops k' (PInt 2)"
    by (auto simp: less_Suc_eq)
  from t2 [THEN conjunct1, rule_format, where i = 1 and k = "PInt 2" and v = "PFloat 5"]
       later
  have "convert_stat_data exact_ops ?d ''month'' False (Some 2)
          = (case py_mul exact_ops (PFloat 5) (PInt 1000) of
               Inl err \<Rightarrow> Inl err | Inr r \<Rightarrow> Inr [(PInt 2, r)])"
    by simp
  then have "convert_stat_data exact_ops ?d ''month'' False (Some 2)
               = Inr [(PInt 2, PFloat 5000)]"
    by (simp add: exact_ops_def)
  moreover from t3 [THEN conjunct2]
  have "convert_stat_data exact_ops ?d ''month'' False (Some 3) = Inr []"
    by simp
  ultimately show ?thesis by simp
qed

text \<open>
  C5. With the key absent, the empty series gives the empty mapping. A non-empty series
  takes its unit from the first record alone: with an \<open>energy_wh\<close> field there, the
  values are those of \<open>energy_wh\<close>, scaled by the float \<open>1 / 1000\<close> when kWh are
  requested, and otherwise those of \<open>energy\<close>, scaled by 1000 when kWh are not
  requested. When every record has an int \<open>entry_key\<close> field and that value field, the
  result has exactly the \<open>entry_key\<close> values of the records as keys, each once and
  each with the scaled value (the Python product \<open>entry[value_key] * scale\<close>) of the
  last record carrying it: later records overwrite earlier ones. Should a product raise,
  the call raises the error of the first record whose product does.
\<close>

theorem convert_stat_data_whole_series:
  "convert_stat_data ops [] entry_key kwh None = Inr []
   \<and> (data \<noteq> []
        \<and> value_key = (if ''energy_wh'' \<in> dom (hd data) then ''energy_wh'' else ''energy'')
        \<and> scale = (if ''energy_wh'' \<in> dom (hd data)
                    then (if kwh then PFloat (true_div ops 1 1000) else PInt 1)
                    else (if kwh then PInt 1 else PInt 1000))
        \<and> (\<forall>e \<in> set data. (\<exists>n. e entry_key = Some (PInt n)) \<and> value_key \<in> dom e)
      \<longrightarrow>
        ((\<forall>e \<in> set data. \<forall>v. e value_key = Some v \<longrightarrow> (\<exists>r. py_mul ops v scale = Inr r))
          \<longrightarrow> (\<exists>m. convert_stat_data ops data entry_key kwh None = Inr m
                 \<and> fst ` set m = {k. \<exists>e \<in> set data. e entry_key = Some k}
                 \<and> distinct (map fst m)
                 \<and> (\<forall>i n v r. i < length data
                              \<and> (data ! i) entry_key = Some (PInt n)
                              \<and> (data ! i) value_key = Some v
                              \<and> py_mul ops v scale = Inr r
                              \<and> (\<forall>j. i < j \<and> j < length data
                                      \<longrightarrow> (data ! j) entry_key \<noteq> Some (PInt n))
                            \<longrightarrow> num_dict_get ops m (PInt n) = Some r)))
        \<and> (\<forall>i v err. i < length data
                     \<and> (data ! i) value_key = Some v
                     \<and> py_mul ops v scale = Inl err
                     \<and> (\<forall>j. j < i \<longrightarrow> (\<exists>v' r. (data ! j) value_key = Some v'
                                                \<and> py_mul ops v' scale = Inr r))
                   \<longrightarrow> convert_stat_data ops data entry_key kwh None = Inl err))"
proof (intro conjI impI allI)
  show "convert_stat_data ops [] entry_key kwh None = Inr []"
    by (simp add: convert_stat_data_def)
next
  assume a: "data \<noteq> []
        \<and> value_key = (if ''energy_wh'' \<in> dom (hd data) then ''energy_wh'' else ''energy'')
        \<and> scale = (if ''energy_wh'' \<in> dom (hd data)
                    then (if kwh then PFloat (true_div ops 1 1000) else PInt 1)
                    else (if kwh then PInt 1 else PInt 1000))
        \<and> (\<forall>e \<in> set data. (\<exists>n. e entry_key = Some (PInt n)) \<and> value_key \<in> dom e)"
    and ok: "\<forall>e \<in> set data. \<forall>v. e value_key = Some v \<longrightarrow> (\<exists>r. py_mul ops v scale = Inr r)"
  from a have ne: "data \<noteq> []"
    and fields: "\<forall>e \<in> set data. (\<exists>n. e entry_key = Some (PInt n)) \<and> value_key \<in> dom e"
    by blast+
  from a have vk: "value_key = value_key_of data"
    by (simp only: value_key_of_def)
  from a have sc: "scale = scale_of ops data kwh"
    by (simp only: scale_of_def) simp
  from fields have ints: "\<forall>e \<in> set data. \<exists>n. e entry_key = Some (PInt n)"
    by blast
  have "\<forall>e \<in> set data. (\<exists>k. e entry_key = Some k)
                         \<and> (\<exists>v r. e value_key = Some v \<and> py_mul ops v scale = Inr r)"
  proof
    fix e assume e: "e \<in> set data"
    with fields obtain n v where "e entry_key = Some (PInt n)" "e value_key = Some v"
      by blast
    moreover with ok e obtain r where "py_mul ops v scale = Inr r" by blast
    ultimately show "(\<exists>k. e entry_key = Some k)
                         \<and> (\<exists>v r. e value_key = Some v \<and> py_mul ops v scale = Inr r)"
      by blast
  qed
  from all_entries_total [OF this]
  obtain m where m: "all_entries ops entry_key value_key scale data [] = Inr m"
    by blast
  with ne vk sc have conv: "convert_stat_data ops data entry_key kwh None = Inr m"
    by (simp add: convert_stat_data_def)
  have empty: "fst ` set ([] :: 'a num_dict) \<subseteq> range PInt" by simp
  from all_entries_keys [OF m ints empty]
  have d: "fst ` set m = {k. \<exists>e \<in> set data. e entry_key = Some k}"
    and dist: "distinct (map fst m)"
    by simp_all
  have l: "\<forall>i n v r. i < length data
                              \<and> (data ! i) entry_key = Some (PInt n)
                              \<and> (data ! i) value_key = Some v
                              \<and> py_mul ops v scale = Inr r
                              \<and> (\<forall>j. i < j \<and> j < length data
                                      \<longrightarrow> (data ! j) entry_key \<noteq> Some (PInt n))
                            \<longrightarrow> num_dict_get ops m (PInt n) = Some r"
  proof (intro allI impI)
    fix i n v r
    assume "i < length data
                              \<and> (data ! i) entry_key = Some (PInt n)
                              \<and> (data ! i) value_key = Some v
                              \<and> py_mul ops v scale = Inr r
                              \<and> (\<forall>j. i < j \<and> j < length data
                                      \<longrightarrow> (data ! j) entry_key \<noteq> Some (PInt n))"
    then show "num_dict_get ops m (PInt n) = Some r"
      by (intro all_entries_last [OF m ints empty, of i n v r]) simp_all
  qed
  from conv d dist l
  show "\<exists>m. convert_stat_data ops data entry_key kwh None = Inr m
                 \<and> fst ` set m = {k. \<exists>e \<in> set data. e entry_key = Some k}
                 \<and> distinct (map fst m)
                 \<and> (\<forall>i n v r. i < length data
                              \<and> (data ! i) entry_key = Some (PInt n)
                              \<and> (data ! i) value_key = Some v
                              \<and> py_mul ops v scale = Inr r
                              \<and> (\<forall>j. i < j \<and> j < length data
                                      \<longrightarrow> (data ! j) entry_key \<noteq> Some (PInt n))
                            \<longrightarrow> num_dict_get ops m (PInt n) = Some r)"
    by (intro exI [of _ m] conjI)
next
  fix i v err
  assume a: "data \<noteq> []
        \<and> value_key = (if ''energy_wh'' \<in> dom (hd data) then ''energy_wh'' else ''energy'')
        \<and> scale = (if ''energy_wh'' \<in> dom (hd data)
                    then (if kwh then PFloat (true_div ops 1 1000) else PInt 1)
                    else (if kwh then PInt 1 else PInt 1000))
        \<and> (\<forall>e \<in> set data. (\<exists>n. e entry_key = Some (PInt n)) \<and> value_key \<in> dom e)"
    and f: "i < length data
                     \<and> (data ! i) value_key = Some v
                     \<and> py_mul ops v scale = Inl err
                     \<and> (\<forall>j. j < i \<longrightarrow> (\<exists>v' r. (data ! j) value_key = Some v'
                                                \<and> py_mul ops v' scale = Inr r))"
  from a have ne: "data \<noteq> []"
    and fields: "\<forall>e \<in> set data. (\<exists>n. e entry_key = Some (PInt n)) \<and> value_key \<in> dom e"
    by blast+
  from a have vk: "value_key = value_key_of data"
    by (simp only: value_key_of_def)
  from a have sc: "scale = scale_of ops data kwh"
    by (simp only: scale_of_def) simp
  from fields have present: "\<forall>e \<in> set data. entry_key \<in> dom e"
    by blast
  from f have "i < length data" "(data ! i) value_key = Some v" "py_mul ops v scale = Inl err"
    "\<forall>j. j < i \<longrightarrow> (\<exists>v' r. (data ! j) value_key = Some v' \<and> py_mul ops v' scale = Inr r)"
    by blast+
  with present have "all_entries ops entry_key value_key scale data [] = Inl err"
    by (intro all_entries_failure [of i data entry_key value_key v ops scale err])
  with ne vk sc show "convert_stat_data ops data entry_key kwh None = Inl err"
    by (simp add: convert_stat_data_def)
qed

theorem convert_stat_data_whole_series_witness:
  "\<exists>m. convert_stat_data exact_ops
          [[''day'' \<mapsto> PInt 1, ''energy_wh'' \<mapsto> PInt 1000],
           [''day'' \<mapsto> PInt 2, ''energy_wh'' \<mapsto> PInt 2000],
           [''day'' \<mapsto> PInt 1, ''energy_wh'' \<mapsto> PInt 3000]] ''day'' True None = Inr m
       \<and> fst ` set m = {PInt 1, PInt 2} \<and> distinct (map fst m)
       \<and> num_dict_get exact_ops m (PInt 1) = Some (PFloat 3)
       \<and> num_dict_get exact_ops m (PInt 2) = Some (PFloat 2)"
proof -
  let ?d = "[[''day'' \<mapsto> PInt 1, ''energy_wh'' \<mapsto> PInt 1000],
             [''day'' \<mapsto> PInt 2, ''energy_wh'' \<mapsto> PInt 2000],
             [''day'' \<mapsto> PInt 1, ''energy_wh'' \<mapsto> (PInt 3000 :: rat num)]]"
  let ?sc = "PFloat (true_div exact_ops 1 1000)"
  have pre: "?d \<noteq> []
        \<and> ''energy_wh'' = (if ''energy_wh'' \<in> dom (hd ?d) then ''energy_wh'' else ''energy'')
        \<and> ?sc = (if ''energy_wh'' \<in> dom (hd ?d)
                    then (if True then PFloat (true_div exact_ops 1 1000) else PInt 1)
                    else (if True then PInt 1 else PInt 1000))
        \<and> (\<forall>e \<in> set ?d. (\<exists>n. e ''day'' = Some (PInt n)) \<and> ''energy_wh'' \<in> dom e)"
    by simp
  have ok: "\<forall>e \<in> set ?d. \<forall>v. e ''energy_wh'' = Some v
              \<longrightarrow> (\<exists>r. py_mul exact_ops v ?sc = Inr r)"
    by (simp add: exact_ops_def)
  from convert_stat_data_whole_series
         [where ops = exact_ops and entry_key = "''day''" and kwh = True and data = ?d
            and value_key = "''energy_wh''" and scale = ?sc,
          THEN conjunct2, THEN mp, OF pre, THEN conjunct1, THEN mp, OF ok]
  obtain m where conv: "convert_stat_data exact_ops ?d ''day'' True None = Inr m"
    and d: "fst ` set m = {k. \<exists>e \<in> set ?d. e ''day'' = Some k}"
    and dist: "distinct (map fst m)"
    and l: "\<And>i n v r. i < length ?d \<and> (?d ! i) ''day'' = Some (PInt n)
                \<and> (?d ! i) ''energy_wh'' = Some v
                \<and> py_mul exact_ops v ?sc = Inr r
                \<and> (\<forall>j. i < j \<and> j < length ?d \<longrightarrow> (?d ! j) ''day'' \<noteq> Some (PInt n))
              \<Longrightarrow> num_dict_get exact_ops m (PInt n) = Some r"
    by blast
  have "{k. \<exists>e \<in> set ?d. e ''day'' = Some k} = {PInt 1, PInt 2 :: rat num}"
    by auto
  with d have keys: "fst ` set m = {PInt 1, PInt 2}" by simp
  have m3: "py_mul exact_ops (PInt 3000) ?sc = Inr (PFloat 3)"
    and m2: "py_mul exact_ops (PInt 2000) ?sc = Inr (PFloat 2)"
    by (simp_all add: exact_ops_def)
  have "\<forall>j. 2 < j \<and> j < length ?d \<longrightarrow> (?d ! j) ''day'' \<noteq> Some (PInt 1)"
    by simp
  with l [of 2 1 "PInt 3000" "PFloat 3"] m3
  have g1: "num_dict_get exact_ops m (PInt 1) = Some (PFloat 3)" by simp
  have "\<forall>j. 1 < j \<and> j < length ?d \<longrightarrow> (?d ! j) ''day'' \<noteq> Some (PInt 2)"
    by (simp add: less_Suc_eq nth_Cons')
  with l [of 1 2 "PInt 2000" "PFloat 2"] m2
  have g2: "num_dict_get exact_ops m (PInt 2) = Some (PFloat 2)" by simp
  from conv keys dist g1 g2 show ?thesis
    by blast
qed

text \<open>
  C10. For a daily series whose records all have the \<open>day\<close> field, \<open>emeter_today\<close>
  returns \<open>None\<close>, without raising, when no record is of the current day (so also for
  the empty series), and otherwise the energy in kWh of the last record of the current
  day: the Python product of its \<open>energy_wh\<close> value and the float \<open>1 / 1000\<close> when
  the series is in watt-hours, of its \<open>energy\<close> value and 1 otherwise (should that
  product raise, the property raises the same error). The same holds for
  \<open>emeter_this_month\<close>, the monthly series and the \<open>month\<close> field.
\<close>

theorem emeter_today_and_this_month:
  "((\<forall>e \<in> set daily. ''day'' \<in> dom e) \<longrightarrow>
      ((\<forall>e \<in> set daily. \<forall>k. e ''day'' = Some k \<longrightarrow> \<not> py_eq ops k (PInt today))
         \<longrightarrow> emeter_today ops daily today = Inr None)
      \<and> (\<forall>i k v. i < length daily
                \<and> (daily ! i) ''day'' = Some k \<and> py_eq ops k (PInt today)
                \<and> (\<forall>j k'. i < j \<and> j < length daily \<and> (daily ! j) ''day'' = Some k'
                        \<longrightarrow> \<not> py_eq ops k' (PInt today))
                \<and> (daily ! i) (if ''energy_wh'' \<in> dom (hd daily) then ''energy_wh''
                                else ''energy'') = Some v
             \<longrightarrow> emeter_today ops daily today
                   = (case py_mul ops v (if ''energy_wh'' \<in> dom (hd daily)
                                         then PFloat (true_div ops 1 1000) else PInt 1) of
                        Inl err \<Rightarrow> Inl err
                      | Inr r \<Rightarrow> Inr (Some r))))
   \<and> ((\<forall>e \<in> set monthly. ''month'' \<in> dom e) \<longrightarrow>
      ((\<forall>e \<in> set monthly. \<forall>k. e ''month'' = Some k
            \<longrightarrow> \<not> py_eq ops k (PInt current_month))
         \<longrightarrow> emeter_this_month ops monthly current_month = Inr None)
      \<and> (\<forall>i k v. i < length monthly
                \<and> (monthly ! i) ''month'' = Some k \<and> py_eq ops k (PInt current_month)
                \<and> (\<forall>j k'. i < j \<and> j < length monthly \<and> (monthly ! j) ''month'' = Some k'
                        \<longrightarrow> \<not> py_eq ops k' (PInt current_month))
                \<and> (monthly ! i) (if ''energy_wh'' \<in> dom (hd monthly) then ''energy_wh''
                                  else ''energy'') = Some v
             \<longrightarrow> emeter_this_month ops monthly current_month
                   = (case py_mul ops v (if ''energy_wh'' \<in> dom (hd monthly)
                                         then PFloat (true_div ops 1 1000) else PInt 1) of
                        Inl err \<Rightarrow> Inl err
                      | Inr r \<Rightarrow> Inr (Some r))))"
proof (intro conjI impI allI)
  assume "\<forall>e \<in> set daily. ''day'' \<in> dom e"
    and "\<forall>e \<in> set daily. \<forall>k. e ''day'' = Some k \<longrightarrow> \<not> py_eq ops k (PInt today)"
  then show "emeter_today ops daily today = Inr None"
    by (simp add: emeter_today_def current_none)
next
  fix i k v
  assume "\<forall>e \<in> set daily. ''day'' \<in> dom e"
    and "i < length daily
                \<and> (daily ! i) ''day'' = Some k \<and> py_eq ops k (PInt today)
                \<and> (\<forall>j k'. i < j \<and> j < length daily \<and> (daily ! j) ''day'' = Some k'
                        \<longrightarrow> \<not> py_eq ops k' (PInt today))
                \<and> (daily ! i) (if ''energy_wh'' \<in> dom (hd daily) then ''energy_wh''
                                else ''energy'') = Some v"
  then show "emeter_today ops daily today
                   = (case py_mul ops v (if ''energy_wh'' \<in> dom (hd daily)
                                         then PFloat (true_div ops 1 1000) else PInt 1) of
                        Inl err \<Rightarrow> Inl err
                      | Inr r \<Rightarrow> Inr (Some r))"
    unfolding emeter_today_def by (rule current_last)
next
  assume "\<forall>e \<in> set monthly. ''month'' \<in> dom e"
    and "\<forall>e \<in> set monthly. \<forall>k. e ''month'' = Some k
            \<longrightarrow> \<not> py_eq ops k (PInt current_month)"
  then show "emeter_this_month ops monthly current_month = Inr None"
    by (simp add: emeter_this_month_def current_none)
next
  fix i k v
  assume "\<forall>e \<in> set monthly. ''month'' \<in> dom e"
    and "i < length monthly
                \<and> (monthly ! i) ''month'' = Some k \<and> py_eq ops k (PInt current_month)
                \<and> (\<forall>j k'. i < j \<and> j < length monthly \<and> (monthly ! j) ''month'' = Some k'
                        \<longrightarrow> \<not> py_eq ops k' (PInt current_month))
                \<and> (monthly ! i) (if ''energy_wh'' \<in> dom (hd monthly) then ''energy_wh''
                                  else ''energy'') = Some v"
  then show "emeter_this_month ops monthly current_month
                   = (case py_mul ops v (if ''energy_wh'' \<in> dom (hd monthly)
                                         then PFloat (true_div ops 1 1000) else PInt 1) of
                        Inl err \<Rightarrow> Inl err
                      | Inr r \<Rightarrow> Inr (Some r))"
    unfolding emeter_this_month_def by (rule current_last)
qed

theorem emeter_today_and_this_month_witness:
  "emeter_today exact_ops [] 14 = Inr None
   \<and> emeter_today exact_ops
       [[''day'' \<mapsto> PInt 13, ''energy_wh'' \<mapsto> PInt 1000],
        [''day'' \<mapsto> PInt 14, ''energy_wh'' \<mapsto> PInt 2500]] 14
       = Inr (Some (PFloat (5 / 2)))
   \<and> emeter_this_month exact_ops [[''month'' \<mapsto> PInt 10, ''energy'' \<mapsto> PFloat 7]] 11 = Inr None
   \<and> emeter_this_month exact_ops
       [[''month'' \<mapsto> PInt 10, ''energy'' \<mapsto> PFloat 7],
        [''month'' \<mapsto> PInt 11, ''energy'' \<mapsto> PFloat 3]] 11
       = Inr (Some (PFloat 3))"
proof -
  let ?d = "[[''day'' \<mapsto> PInt 13, ''energy_wh'' \<mapsto> PInt 1000],
             [''day'' \<mapsto> PInt 14, ''energy_wh'' \<mapsto> (PInt 2500 :: rat num)]]"
  let ?m1 = "[[''month'' \<mapsto> PInt 10, ''energy'' \<mapsto> PFloat (7::rat)]]"
  let ?m2 = "[[''month'' \<mapsto> PInt 10, ''energy'' \<mapsto> PFloat 7],
              [''month'' \<mapsto> PInt 11, ''energy'' \<mapsto> PFloat (3::rat)]]"
  note t_empty = emeter_today_and_this_month
    [where daily = "[]" and ops = exact_ops and today = 14 and monthly = ?m1
       and current_month = 11]
  note t_hit = emeter_today_and_this_month
    [where daily = ?d and ops = exact_ops and today = 14 and monthly = ?m2
       and current_month = 11]
  have fd: "\<forall>e \<in> set ?d. ''day'' \<in> dom e" and fm: "\<forall>e \<in> set ?m2. ''month'' \<in> dom e"
    by simp_all
  have "emeter_today exact_ops [] 14 = Inr None"
    using t_empty [THEN conjunct1] by simp
  moreover have "emeter_this_month exact_ops ?m1 11 = Inr None"
    using t_empty [THEN conjunct2] by simp
  moreover have "\<forall>j k'. 1 < j \<and> j < length ?d \<and> (?d ! j) ''day'' = Some k'
                   \<longrightarrow> \<not> py_eq exact_ops k' (PInt 14)"
    by (auto simp: less_Suc_eq)
  with t_hit [THEN conjunct1, THEN mp, OF fd, THEN conjunct2, rule_format,
              where i = 1 and k = "PInt 14" and v = "PInt 2500"]
  have "emeter_today exact_ops ?d 14
          = (case py_mul exact_ops (PInt 2500) (PFloat (true_div exact_ops 1 1000)) of
               Inl err \<Rightarrow> Inl err | Inr r \<Rightarrow> Inr (Some r))"
    by simp
  then have "emeter_today exact_ops ?d 14 = Inr (Some (PFloat (5 / 2)))"
    by (simp add: exact_ops_def)
  moreover have "\<forall>j k'. 1 < j \<and> j < length ?m2 \<and> (?m2 ! j) ''month'' = Some k'
                   \<longrightarrow> \<not> py_eq exact_ops k' (PInt 11)"
    by (auto simp: less_Suc_eq)
  with t_hit [THEN conjunct2, THEN mp, OF fm, THEN conjunct2, rule_format,
              where i = 1 and k = "PInt 11" and v = "PFloat 3"]
  have "emeter_this_month exact_ops ?m2 11
          = (case py_mul exact_ops (PFloat 3) (PInt 1) of
               Inl err \<Rightarrow> Inl err | Inr r \<Rightarrow> Inr (Some r))"
    by simp
  then have "emeter_this_month exact_ops ?m2 11 = Inr (Some (PFloat 3))"
    by (simp add: exact_ops_def)
  ultimately show ?thesis by simp
qed


section \<open>Properties of the light strip effects\<close>

text \<open>
  C9 (violated by the code). \<open>set_effect\<close> writes the overrides into the dictionary
  object that the catalog itself holds. With a catalog whose entry "Aurora" has brightness
  100, \<open>set_effect("Aurora", brightness=50)\<close> succeeds and leaves the catalog entry with
  brightness 50; a following \<open>set_effect("Aurora")\<close> without overrides forwards
  brightness 50 again, not the original 100.
\<close>

theorem set_effect_override_stays_in_catalog:
  "(let aurora = [''name'' \<mapsto> VStr ''Aurora'', ''brightness'' \<mapsto> VInt 100];
        s0 = \<lparr>EFFECT_MAPPING_V1 = [''Aurora'' \<mapsto> 0],
              objects = (\<lambda>r. Map.empty)(0 := aurora),
              last_update = True, has_effects = True, transport = (\<lambda>q. Inr ()),
              helper_queries = []\<rparr>;
        s1 = snd (set_effect s0 ''Aurora'' (VInt 50) VNone);
        s2 = snd (set_effect s1 ''Aurora'' VNone VNone);
        brightness_of = (\<lambda>d. case d of None \<Rightarrow> None | Some d \<Rightarrow> d ''brightness'')
    in brightness_of (catalog_entry s0 ''Aurora'') = Some (VInt 100)
       \<and> fst (set_effect s0 ''Aurora'' (VInt 50) VNone) = Inr ()
       \<and> brightness_of (catalog_entry s1 ''Aurora'') = Some (VInt 50)
       \<and> catalog_entry s1 ''Aurora'' \<noteq> catalog_entry s0 ''Aurora''
       \<and> fst (set_effect s1 ''Aurora'' VNone VNone) = Inr ()
       \<and> map (\<lambda>(target, cmd, d). d ''brightness'') (helper_queries s2)
           = [Some (VInt 50), Some (VInt 50)])"
proof -
  let ?aurora = "[''name'' \<mapsto> VStr ''Aurora'', ''brightness'' \<mapsto> VInt 100]"
  let ?s0 = "\<lparr>EFFECT_MAPPING_V1 = [''Aurora'' \<mapsto> 0],
              objects = (\<lambda>r. Map.empty)(0 := ?aurora),
              last_update = True, has_effects = True, transport = (\<lambda>q. Inr ()),
              helper_queries = []\<rparr>"
  let ?s1 = "snd (set_effect ?s0 ''Aurora'' (VInt 50) VNone)"
  let ?s2 = "snd (set_effect ?s1 ''Aurora'' VNone VNone)"
  let ?br = "\<lambda>d. case d of None \<Rightarrow> None | Some d \<Rightarrow> d ''brightness''"
  have b0: "?br (catalog_entry ?s0 ''Aurora'') = Some (VInt 100)"
    by (simp add: catalog_entry_def)
  have r1: "fst (set_effect ?s0 ''Aurora'' (VInt 50) VNone) = Inr ()"
    by (simp add: set_effect_def set_custom_effect_def query_helper_def setitem_def)
  have b1: "?br (catalog_entry ?s1 ''Aurora'') = Some (VInt 50)"
    by (simp add: set_effect_def set_custom_effect_def query_helper_def setitem_def
          catalog_entry_def)
  have ne: "catalog_entry ?s1 ''Aurora'' \<noteq> catalog_entry ?s0 ''Aurora''"
  proof
    assume "catalog_entry ?s1 ''Aurora'' = catalog_entry ?s0 ''Aurora''"
    then have "?br (catalog_entry ?s1 ''Aurora'') = ?br (catalog_entry ?s0 ''Aurora'')"
      by (rule arg_cong)
    with b0 b1 show False by simp
  qed
  have r2: "fst (set_effect ?s1 ''Aurora'' VNone VNone) = Inr ()"
    by (simp add: set_effect_def set_custom_effect_def query_helper_def setitem_def)
  have q2: "map (\<lambda>(target, cmd, d). d ''brightness'') (helper_queries ?s2)
           = [Some (VInt 50), Some (VInt 50)]"
    by (simp add: set_effect_def set_custom_effect_def query_helper_def setitem_def)
  from b0 r1 b1 ne r2 q2 show ?thesis
    unfolding Let_def by (intro conjI)
qed

end
